theory Spec2Isabelle
  imports Main
begin

section \<open>The in-memory rate limiter of \<open>lib/rate-limit.ts\<close>\<close>

text \<open>
  The module keeps one process-wide \<open>Map\<close> from identifier strings to objects
  \<open>{ count, resetTime }\<close>. \<open>checkRateLimit\<close> reads the clock once, looks the
  identifier up and either starts a new window, rejects, or increments the counter of the
  live window. A timer callback deletes the entries whose window is over.

  The embedding passes the map and the value of \<open>Date.now()\<close> explicitly. The numbers
  of the source (millisecond timestamps, counters, the two fields of a configuration) are
  whole numbers in every use the repository makes of them and are modelled as \<open>int\<close>, so
  negative and zero configurations are inputs of the model as they are inputs of the
  source; fractions, \<open>NaN\<close> and the loss of precision above \<open>2^53\<close> are outside the
  model. The clock values of successive events are arbitrary unless a statement restricts
  them. The source has no \<open>throw\<close> and reads \<open>tokenData.resetTime\<close> only behind the
  \<open>!tokenData\<close> test, so the model has no error value: each call returns a result
  object.
\<close>

subsection \<open>Data\<close>

record token_data =
  count :: int
  resetTime :: int

record RateLimitConfig =
  interval :: int
  uniqueTokenPerInterval :: int

record rate_limit_result =
  success :: bool
  remaining :: int

type_synonym rate_limit_map = "string \<rightharpoonup> token_data"

subsection \<open>\<open>checkRateLimit\<close>\<close>

text \<open>
  The body of the source function (lines 20 to 40):
  \<^verbatim>\<open>
  const now = Date.now()
  const tokenData = rateLimit.get(identifier)
  if (!tokenData || now > tokenData.resetTime) {
    rateLimit.set(identifier, { count: 1, resetTime: now + config.interval })
    return { success: true, remaining: config.uniqueTokenPerInterval - 1 }
  }
  if (tokenData.count >= config.uniqueTokenPerInterval) {
    return { success: false, remaining: 0 }
  }
  tokenData.count++
  return { success: true, remaining: config.uniqueTokenPerInterval - tokenData.count }
  \<close>
  The first argument of the model is the value read from the clock. The branch order is
  the source's: absent or \<open>now > resetTime\<close> first, then
  \<open>count >= uniqueTokenPerInterval\<close>, then the increment. \<open>tokenData\<close> is the object
  held by the map, so \<open>tokenData.count++\<close> changes the stored entry; the model writes the
  entry back under the same key.
\<close>

definition checkRateLimit ::
  "int \<Rightarrow> string \<Rightarrow> RateLimitConfig \<Rightarrow> rate_limit_map \<Rightarrow> rate_limit_result \<times> rate_limit_map"
where
  "checkRateLimit now identifier config rateLimit =
     (let created =
        (\<lparr>success = True, remaining = uniqueTokenPerInterval config - 1\<rparr>,
         rateLimit(identifier \<mapsto> \<lparr>count = 1, resetTime = now + interval config\<rparr>))
      in case rateLimit identifier of
           None \<Rightarrow> created
         | Some tokenData \<Rightarrow>
             if now > resetTime tokenData then created
             else if count tokenData \<ge> uniqueTokenPerInterval config
               then (\<lparr>success = False, remaining = 0\<rparr>, rateLimit)
             else
               (let n = count tokenData + 1
                in (\<lparr>success = True, remaining = uniqueTokenPerInterval config - n\<rparr>,
                    rateLimit(identifier \<mapsto> tokenData\<lparr>count := n\<rparr>))))"

text \<open>
  The default value of the parameter \<open>config\<close> (line 18), and the call that leaves the
  parameter out.
\<close>

definition default_config :: RateLimitConfig where
  "default_config = \<lparr>interval = 60000, uniqueTokenPerInterval = 10\<rparr>"

definition checkRateLimit_default ::
  "int \<Rightarrow> string \<Rightarrow> rate_limit_map \<Rightarrow> rate_limit_result \<times> rate_limit_map"
where
  "checkRateLimit_default now identifier rateLimit =
     checkRateLimit now identifier default_config rateLimit"

text \<open>
  The entry \<open>DEFAULT\<close> of the table \<open>RATE_LIMITS\<close> in \<open>lib/config/constants.ts\<close>
  (lines 13 to 16). Its fields are \<open>interval\<close> and \<open>requests\<close>; the first is named
  \<open>tier_interval\<close> here, apart from the field of \<open>RateLimitConfig\<close>.
\<close>

record rate_limit_tier =
  tier_interval :: int
  requests :: int

definition RATE_LIMITS_DEFAULT :: rate_limit_tier where
  "RATE_LIMITS_DEFAULT = \<lparr>tier_interval = 60000, requests = 30\<rparr>"

subsection \<open>The periodic sweep\<close>

text \<open>
  \<^verbatim>\<open>
  const now = Date.now()
  for (const [key, value] of rateLimit.entries()) {
    if (now > value.resetTime) { rateLimit.delete(key) }
  }
  \<close>
  The callback of \<open>setInterval\<close> (lines 45 to 52) visits every entry of the map and
  deletes the key when \<open>now > value.resetTime\<close>. Deleting the entry under the iterator
  does not disturb the iteration of a \<open>Map\<close>, so the outcome is the map restricted to
  the entries that fail the test, key by key. The timer is installed only where
  \<open>window\<close> is undefined (line 44); \<open>cleanup\<close> is one firing of it.
\<close>

definition cleanup :: "int \<Rightarrow> rate_limit_map \<Rightarrow> rate_limit_map" where
  "cleanup now rateLimit =
     (\<lambda>key. case rateLimit key of
               None \<Rightarrow> None
             | Some v \<Rightarrow> if now > resetTime v then None else Some v)"

subsection \<open>Histories\<close>

text \<open>
  A history of the module is a list of events, each with the clock value it read: a call
  of \<open>checkRateLimit\<close> or a firing of the sweep. The map starts empty (line 9).
\<close>

datatype event =
    Check int string RateLimitConfig
  | Sweep int

fun step :: "event \<Rightarrow> rate_limit_map \<Rightarrow> rate_limit_map" where
  "step (Check now identifier config) m = snd (checkRateLimit now identifier config m)"
| "step (Sweep now) m = cleanup now m"

definition run :: "event list \<Rightarrow> rate_limit_map \<Rightarrow> rate_limit_map" where
  "run evs m = fold step evs m"

text \<open>A sequence of calls, with the results in call order and the final map.\<close>

fun checks ::
  "(int \<times> string \<times> RateLimitConfig) list \<Rightarrow> rate_limit_map
     \<Rightarrow> rate_limit_result list \<times> rate_limit_map"
where
  "checks [] m = ([], m)"
| "checks ((now, identifier, config) # cs) m =
     (let (r, m') = checkRateLimit now identifier config m;
          (rs, m'') = checks cs m'
      in (r # rs, m''))"

text \<open>Successive calls for one identifier under one configuration, at the given times.\<close>

definition calls ::
  "string \<Rightarrow> RateLimitConfig \<Rightarrow> int list \<Rightarrow> rate_limit_map
     \<Rightarrow> rate_limit_result list \<times> rate_limit_map"
where
  "calls identifier config ts m = checks (map (\<lambda>t. (t, identifier, config)) ts) m"

text \<open>
  Two maps that agree except on identifiers that the second one lacks and whose window in
  the first one was over before time \<open>T\<close>.
\<close>

definition same_up_to_expired :: "int \<Rightarrow> rate_limit_map \<Rightarrow> rate_limit_map \<Rightarrow> bool" where
  "same_up_to_expired T m m' =
     (\<forall>k. m' k = m k \<or> (m' k = None \<and> (\<exists>w. m k = Some w \<and> resetTime w < T)))"

text \<open>The invariant of the stored entries.\<close>

definition counts_positive :: "rate_limit_map \<Rightarrow> bool" where
  "counts_positive m = (\<forall>k w. m k = Some w \<longrightarrow> 1 \<le> count w)"

section \<open>Basic facts about one call\<close>

lemma checkRateLimit_fresh:
  assumes "m k = None \<or> (\<exists>w. m k = Some w \<and> now > resetTime w)"
  shows "checkRateLimit now k cfg m =
           (\<lparr>success = True, remaining = uniqueTokenPerInterval cfg - 1\<rparr>,
            m(k \<mapsto> \<lparr>count = 1, resetTime = now + interval cfg\<rparr>))"
  using assms by (auto simp: checkRateLimit_def)

lemma checkRateLimit_exhausted:
  assumes "m k = Some w" and "\<not> now > resetTime w" and "count w \<ge> uniqueTokenPerInterval cfg"
  shows "checkRateLimit now k cfg m = (\<lparr>success = False, remaining = 0\<rparr>, m)"
  using assms by (simp add: checkRateLimit_def)

lemma checkRateLimit_increment:
  assumes "m k = Some w" and "\<not> now > resetTime w" and "count w < uniqueTokenPerInterval cfg"
  shows "checkRateLimit now k cfg m =
           (\<lparr>success = True, remaining = uniqueTokenPerInterval cfg - (count w + 1)\<rparr>,
            m(k \<mapsto> w\<lparr>count := count w + 1\<rparr>))"
  using assms by (simp add: checkRateLimit_def Let_def)

lemma checkRateLimit_other:
  assumes "k' \<noteq> k"
  shows "snd (checkRateLimit now k cfg m) k' = m k'"
  using assms by (simp add: checkRateLimit_def Let_def split: option.splits)

lemma checkRateLimit_local:
  assumes "m k = m' k"
  shows "fst (checkRateLimit now k cfg m) = fst (checkRateLimit now k cfg m')"
    and "snd (checkRateLimit now k cfg m) k = snd (checkRateLimit now k cfg m') k"
  using assms by (simp_all add: checkRateLimit_def Let_def split: option.splits)

section \<open>Sequences of calls\<close>

lemma checks_Cons:
  "checks ((t, k, cfg) # cs) m =
     (fst (checkRateLimit t k cfg m) # fst (checks cs (snd (checkRateLimit t k cfg m))),
      snd (checks cs (snd (checkRateLimit t k cfg m))))"
  by (simp split: prod.splits)

lemma checks_other:
  assumes "\<forall>c\<in>set cs. fst (snd c) \<noteq> k"
  shows "snd (checks cs m) k = m k"
  using assms
proof (induction cs arbitrary: m)
  case Nil
  show ?case by simp
next
  case (Cons c cs)
  obtain t k' cfg where c: "c = (t, k', cfg)" by (cases c)
  with Cons.prems have "k \<noteq> k'" by auto
  then have "snd (checkRateLimit t k' cfg m) k = m k" by (rule checkRateLimit_other)
  moreover have "snd (checks cs (snd (checkRateLimit t k' cfg m))) k = snd (checkRateLimit t k' cfg m) k"
    using Cons.prems by (intro Cons.IH) simp
  ultimately show ?case unfolding c checks_Cons by simp
qed

lemma calls_Nil: "calls k cfg [] m = ([], m)"
  by (simp add: calls_def)

lemma calls_Cons:
  "calls k cfg (t # ts) m =
     (fst (checkRateLimit t k cfg m) # fst (calls k cfg ts (snd (checkRateLimit t k cfg m))),
      snd (calls k cfg ts (snd (checkRateLimit t k cfg m))))"
  by (simp add: calls_def split: prod.splits)

lemma calls_rejected:
  assumes "m k = Some w" and "\<forall>t\<in>set ts. t \<le> resetTime w"
    and "uniqueTokenPerInterval cfg \<le> count w"
  shows "calls k cfg ts m = (replicate (length ts) \<lparr>success = False, remaining = 0\<rparr>, m)"
  using assms
proof (induction ts)
  case Nil
  show ?case by (simp add: calls_Nil)
next
  case (Cons t ts)
  then have "checkRateLimit t k cfg m = (\<lparr>success = False, remaining = 0\<rparr>, m)"
    by (intro checkRateLimit_exhausted [where w = w]) auto
  with Cons show ?case by (simp add: calls_Cons)
qed

lemma calls_in_window:
  assumes "m k = Some w" and "\<forall>t\<in>set ts. t \<le> resetTime w"
    and "count w + int (length ts) \<le> uniqueTokenPerInterval cfg"
  shows "calls k cfg ts m =
           (map (\<lambda>i. \<lparr>success = True, remaining = uniqueTokenPerInterval cfg - (count w + 1 + int i)\<rparr>)
              [0..<length ts],
            m(k \<mapsto> w\<lparr>count := count w + int (length ts)\<rparr>))"
  using assms
proof (induction ts arbitrary: m w)
  case Nil
  then have "m(k \<mapsto> w) = m" by (simp add: fun_upd_idem)
  then show ?case by (simp add: calls_Nil)
next
  case (Cons t ts)
  let ?w1 = "w\<lparr>count := count w + 1\<rparr>"
  let ?m1 = "m(k \<mapsto> ?w1)"
  from Cons.prems have one: "checkRateLimit t k cfg m =
      (\<lparr>success = True, remaining = uniqueTokenPerInterval cfg - (count w + 1)\<rparr>, ?m1)"
    by (intro checkRateLimit_increment) auto
  have "calls k cfg ts ?m1 =
           (map (\<lambda>i. \<lparr>success = True, remaining = uniqueTokenPerInterval cfg - (count ?w1 + 1 + int i)\<rparr>)
              [0..<length ts],
            ?m1(k \<mapsto> ?w1\<lparr>count := count ?w1 + int (length ts)\<rparr>))"
    using Cons.prems by (intro Cons.IH) auto
  then have rest: "calls k cfg ts ?m1 =
           (map (\<lambda>i. \<lparr>success = True, remaining = uniqueTokenPerInterval cfg - (count w + 1 + int (Suc i))\<rparr>)
              [0..<length ts],
            m(k \<mapsto> w\<lparr>count := count w + int (length (t # ts))\<rparr>))"
    by (simp add: add.assoc)
  have upt: "[0..<length (t # ts)] = 0 # map Suc [0..<length ts]"
    by (simp add: upt_conv_Cons map_Suc_upt del: upt_Suc)
  show ?case
    unfolding calls_Cons one fst_conv snd_conv rest upt
    by (intro prod_eqI) (simp_all add: comp_def fun_eq_iff del: upt_Suc)
qed

section \<open>The sweep and later calls\<close>

lemma cleanup_apply:
  "cleanup T m k = (if \<exists>w. m k = Some w \<and> resetTime w < T then None else m k)"
  by (simp add: cleanup_def split: option.splits)

lemma cleanup_same_up_to_expired: "same_up_to_expired T m (cleanup T m)"
  unfolding same_up_to_expired_def
proof
  fix k
  show "cleanup T m k = m k \<or> (cleanup T m k = None \<and> (\<exists>w. m k = Some w \<and> resetTime w < T))"
    by (cases "m k") (simp_all add: cleanup_def)
qed

lemma checkRateLimit_same_up_to_expired:
  assumes rel: "same_up_to_expired T m m'" and later: "T \<le> t"
  shows "fst (checkRateLimit t k cfg m') = fst (checkRateLimit t k cfg m)"
    and "same_up_to_expired T (snd (checkRateLimit t k cfg m)) (snd (checkRateLimit t k cfg m'))"
proof -
  from rel have "m' k = m k \<or> (m' k = None \<and> (\<exists>w. m k = Some w \<and> resetTime w < T))"
    by (simp add: same_up_to_expired_def)
  then have here: "fst (checkRateLimit t k cfg m') = fst (checkRateLimit t k cfg m)
      \<and> snd (checkRateLimit t k cfg m') k = snd (checkRateLimit t k cfg m) k"
  proof
    assume "m' k = m k"
    then show ?thesis using checkRateLimit_local [of m' k m t cfg] by simp
  next
    assume swept: "m' k = None \<and> (\<exists>w. m k = Some w \<and> resetTime w < T)"
    then have "m k = None \<or> (\<exists>w. m k = Some w \<and> resetTime w < t)"
      using later by auto
    then have "checkRateLimit t k cfg m =
           (\<lparr>success = True, remaining = uniqueTokenPerInterval cfg - 1\<rparr>,
            m(k \<mapsto> \<lparr>count = 1, resetTime = t + interval cfg\<rparr>))"
      by (rule checkRateLimit_fresh)
    moreover from swept have "checkRateLimit t k cfg m' =
           (\<lparr>success = True, remaining = uniqueTokenPerInterval cfg - 1\<rparr>,
            m'(k \<mapsto> \<lparr>count = 1, resetTime = t + interval cfg\<rparr>))"
      by (simp add: checkRateLimit_fresh)
    ultimately show ?thesis by simp
  qed
  then show "fst (checkRateLimit t k cfg m') = fst (checkRateLimit t k cfg m)" ..
  show "same_up_to_expired T (snd (checkRateLimit t k cfg m)) (snd (checkRateLimit t k cfg m'))"
    unfolding same_up_to_expired_def
  proof
    fix k'
    show "snd (checkRateLimit t k cfg m') k' = snd (checkRateLimit t k cfg m) k' \<or>
          (snd (checkRateLimit t k cfg m') k' = None \<and>
           (\<exists>w. snd (checkRateLimit t k cfg m) k' = Some w \<and> resetTime w < T))"
    proof (cases "k' = k")
      case True
      with here show ?thesis by simp
    next
      case False
      with rel show ?thesis
        by (simp add: checkRateLimit_other same_up_to_expired_def)
    qed
  qed
qed

lemma checks_same_up_to_expired:
  assumes "same_up_to_expired T m m'" and "\<forall>c\<in>set cs. T \<le> fst c"
  shows "fst (checks cs m') = fst (checks cs m)
       \<and> same_up_to_expired T (snd (checks cs m)) (snd (checks cs m'))"
  using assms
proof (induction cs arbitrary: m m')
  case Nil
  then show ?case by simp
next
  case (Cons c cs)
  obtain t k cfg where c: "c = (t, k, cfg)" by (cases c)
  with Cons.prems have later: "T \<le> t" by simp
  note one = checkRateLimit_same_up_to_expired [OF Cons.prems(1) later, of k cfg]
  have "fst (checks cs (snd (checkRateLimit t k cfg m'))) = fst (checks cs (snd (checkRateLimit t k cfg m)))
       \<and> same_up_to_expired T (snd (checks cs (snd (checkRateLimit t k cfg m))))
            (snd (checks cs (snd (checkRateLimit t k cfg m'))))"
    using one(2) Cons.prems(2) by (intro Cons.IH) simp_all
  with one(1) show ?case unfolding c checks_Cons by simp
qed

section \<open>Stored counters are positive\<close>

lemma counts_positive_empty: "counts_positive Map.empty"
  by (simp add: counts_positive_def)

lemma counts_positive_check:
  assumes "counts_positive m"
  shows "counts_positive (snd (checkRateLimit now k cfg m))"
  unfolding counts_positive_def
proof (intro allI impI)
  fix k' w
  assume stored: "snd (checkRateLimit now k cfg m) k' = Some w"
  show "1 \<le> count w"
  proof (cases "k' = k")
    case False
    with stored have "m k' = Some w" by (simp add: checkRateLimit_other)
    with assms show ?thesis by (simp add: counts_positive_def)
  next
    case True
    show ?thesis
    proof (cases "m k")
      case None
      with stored True show ?thesis by (auto simp: checkRateLimit_def)
    next
      case (Some v)
      with assms have "1 \<le> count v" by (simp add: counts_positive_def)
      with stored True Some show ?thesis
        by (auto simp: checkRateLimit_def Let_def split: if_splits)
    qed
  qed
qed

lemma counts_positive_cleanup:
  assumes "counts_positive m"
  shows "counts_positive (cleanup now m)"
  using assms
  by (auto simp: counts_positive_def cleanup_def split: option.splits if_splits)

lemma counts_positive_step: "counts_positive m \<Longrightarrow> counts_positive (step ev m)"
  by (cases ev) (simp_all add: counts_positive_check counts_positive_cleanup)

lemma counts_positive_run: "counts_positive m \<Longrightarrow> counts_positive (run evs m)"
  unfolding run_def
  by (induction evs arbitrary: m) (simp_all add: counts_positive_step)

text \<open>
  C9. Starting from the empty map, after any history of \<open>checkRateLimit\<close> calls and
  sweeps, every stored entry has \<open>count \<ge> 1\<close>: a window is created with count 1, the
  in-window branch only increments, and the sweep only deletes.
\<close>

theorem stored_count_at_least_one:
  "run evs Map.empty key = Some w \<Longrightarrow> 1 \<le> count w"
  using counts_positive_run [OF counts_positive_empty, of evs]
  by (simp add: counts_positive_def)

theorem stored_count_at_least_one_witness:
  "run [Check 0 ''a'' \<lparr>interval = 10, uniqueTokenPerInterval = 0\<rparr>,
        Check 5 ''a'' \<lparr>interval = 10, uniqueTokenPerInterval = 3\<rparr>,
        Sweep 7,
        Check 8 ''b'' \<lparr>interval = 10, uniqueTokenPerInterval = 3\<rparr>] Map.empty ''a''
     = Some \<lparr>count = 2, resetTime = 10\<rparr>
   \<and> 1 \<le> count \<lparr>count = 2, resetTime = 10\<rparr>"
proof -
  have r: "run [Check 0 ''a'' \<lparr>interval = 10, uniqueTokenPerInterval = 0\<rparr>,
        Check 5 ''a'' \<lparr>interval = 10, uniqueTokenPerInterval = 3\<rparr>,
        Sweep 7,
        Check 8 ''b'' \<lparr>interval = 10, uniqueTokenPerInterval = 3\<rparr>] Map.empty ''a''
     = Some \<lparr>count = 2, resetTime = 10\<rparr>"
    by (simp add: run_def checkRateLimit_def cleanup_def Let_def)
  from stored_count_at_least_one [OF r] r show ?thesis by simp
qed

section \<open>Rejection does not touch the window\<close>

text \<open>
  C2. When the identifier's window is live (\<open>now \<le> resetTime\<close>) and its count has
  reached the quota, the call returns \<open>success = false\<close>, \<open>remaining = 0\<close> and the
  whole map, hence the window's count and resetTime, is unchanged. Any number of further
  calls inside the window are rejected in the same way and leave the map as it was, and
  the first call after the window is over starts a window with count 1.
\<close>

theorem rejected_call_leaves_window:
  assumes live: "m k = Some w" "now \<le> resetTime w"
    and full: "uniqueTokenPerInterval cfg \<le> count w"
    and later: "\<forall>t\<in>set ts. t \<le> resetTime w"
    and reset: "resetTime w < t'"
  shows "checkRateLimit now k cfg m = (\<lparr>success = False, remaining = 0\<rparr>, m)
       \<and> calls k cfg ts m = (replicate (length ts) \<lparr>success = False, remaining = 0\<rparr>, m)
       \<and> checkRateLimit t' k cfg (snd (calls k cfg ts m)) =
           (\<lparr>success = True, remaining = uniqueTokenPerInterval cfg - 1\<rparr>,
            m(k \<mapsto> \<lparr>count = 1, resetTime = t' + interval cfg\<rparr>))"
proof (intro conjI)
  show "checkRateLimit now k cfg m = (\<lparr>success = False, remaining = 0\<rparr>, m)"
    using live full by (intro checkRateLimit_exhausted [where w = w]) auto
  show rep: "calls k cfg ts m = (replicate (length ts) \<lparr>success = False, remaining = 0\<rparr>, m)"
    using live(1) later full by (rule calls_rejected)
  show "checkRateLimit t' k cfg (snd (calls k cfg ts m)) =
           (\<lparr>success = True, remaining = uniqueTokenPerInterval cfg - 1\<rparr>,
            m(k \<mapsto> \<lparr>count = 1, resetTime = t' + interval cfg\<rparr>))"
    using live(1) reset by (simp add: rep checkRateLimit_fresh)
qed

theorem rejected_call_leaves_window_witness:
  "checkRateLimit 500 ''auth-user2'' \<lparr>interval = 1000, uniqueTokenPerInterval = 1\<rparr>
      [''auth-user2'' \<mapsto> \<lparr>count = 1, resetTime = 1000\<rparr>]
     = (\<lparr>success = False, remaining = 0\<rparr>, [''auth-user2'' \<mapsto> \<lparr>count = 1, resetTime = 1000\<rparr>])
   \<and> calls ''auth-user2'' \<lparr>interval = 1000, uniqueTokenPerInterval = 1\<rparr> [600, 700, 1000]
      [''auth-user2'' \<mapsto> \<lparr>count = 1, resetTime = 1000\<rparr>]
     = ([\<lparr>success = False, remaining = 0\<rparr>, \<lparr>success = False, remaining = 0\<rparr>,
         \<lparr>success = False, remaining = 0\<rparr>],
        [''auth-user2'' \<mapsto> \<lparr>count = 1, resetTime = 1000\<rparr>])
   \<and> checkRateLimit 1001 ''auth-user2'' \<lparr>interval = 1000, uniqueTokenPerInterval = 1\<rparr>
      (snd (calls ''auth-user2'' \<lparr>interval = 1000, uniqueTokenPerInterval = 1\<rparr> [600, 700, 1000]
         [''auth-user2'' \<mapsto> \<lparr>count = 1, resetTime = 1000\<rparr>]))
     = (\<lparr>success = True, remaining = 0\<rparr>, [''auth-user2'' \<mapsto> \<lparr>count = 1, resetTime = 2001\<rparr>])"
  using rejected_call_leaves_window
    [of "[''auth-user2'' \<mapsto> \<lparr>count = 1, resetTime = 1000\<rparr>]" "''auth-user2''"
        "\<lparr>count = 1, resetTime = 1000\<rparr>" 500
        "\<lparr>interval = 1000, uniqueTokenPerInterval = 1\<rparr>" "[600, 700, 1000]" 1001]
  by (simp (no_asm_use))


section \<open>Creating and replacing a window\<close>

text \<open>
  C3, as the code has it. The test of the source is \<open>now > resetTime\<close>: when no window
  is stored, or the stored window's resetTime is strictly before the clock value, the call
  stores a window with count 1 and resetTime \<open>now + interval\<close> and returns admitted with
  \<open>remaining = quota - 1\<close>; in particular a call at \<open>now + interval + \<epsilon>\<close> with
  \<open>\<epsilon> > 0\<close> after such a call starts a fresh window again.
\<close>

theorem window_created_when_absent_or_expired:
  assumes "m k = None \<or> (\<exists>w. m k = Some w \<and> resetTime w < now)"
  shows "checkRateLimit now k cfg m =
           (\<lparr>success = True, remaining = uniqueTokenPerInterval cfg - 1\<rparr>,
            m(k \<mapsto> \<lparr>count = 1, resetTime = now + interval cfg\<rparr>))
       \<and> (\<forall>\<epsilon>>0. checkRateLimit (now + interval cfg + \<epsilon>) k cfg (snd (checkRateLimit now k cfg m)) =
           (\<lparr>success = True, remaining = uniqueTokenPerInterval cfg - 1\<rparr>,
            m(k \<mapsto> \<lparr>count = 1, resetTime = now + interval cfg + \<epsilon> + interval cfg\<rparr>)))"
proof -
  have first: "checkRateLimit now k cfg m =
           (\<lparr>success = True, remaining = uniqueTokenPerInterval cfg - 1\<rparr>,
            m(k \<mapsto> \<lparr>count = 1, resetTime = now + interval cfg\<rparr>))"
    using assms by (rule checkRateLimit_fresh)
  have "checkRateLimit (now + interval cfg + \<epsilon>) k cfg (snd (checkRateLimit now k cfg m)) =
           (\<lparr>success = True, remaining = uniqueTokenPerInterval cfg - 1\<rparr>,
            m(k \<mapsto> \<lparr>count = 1, resetTime = now + interval cfg + \<epsilon> + interval cfg\<rparr>))"
    if "0 < \<epsilon>" for \<epsilon>
    using that by (simp add: first checkRateLimit_fresh)
  with first show ?thesis by blast
qed

theorem window_created_when_absent_or_expired_witness:
  "checkRateLimit 0 ''auth-user2'' \<lparr>interval = 1000, uniqueTokenPerInterval = 1\<rparr> Map.empty =
     (\<lparr>success = True, remaining = 0\<rparr>, [''auth-user2'' \<mapsto> \<lparr>count = 1, resetTime = 1000\<rparr>])
   \<and> checkRateLimit 1001 ''auth-user2'' \<lparr>interval = 1000, uniqueTokenPerInterval = 1\<rparr>
       (snd (checkRateLimit 0 ''auth-user2'' \<lparr>interval = 1000, uniqueTokenPerInterval = 1\<rparr> Map.empty)) =
     (\<lparr>success = True, remaining = 0\<rparr>, [''auth-user2'' \<mapsto> \<lparr>count = 1, resetTime = 2001\<rparr>])"
proof -
  let ?cfg = "\<lparr>interval = 1000, uniqueTokenPerInterval = 1\<rparr>"
  have both: "checkRateLimit 0 ''auth-user2'' ?cfg Map.empty =
       (\<lparr>success = True, remaining = 0\<rparr>, [''auth-user2'' \<mapsto> \<lparr>count = 1, resetTime = 1000\<rparr>])
     \<and> (\<forall>\<epsilon>>0. checkRateLimit (1000 + \<epsilon>) ''auth-user2'' ?cfg
            (snd (checkRateLimit 0 ''auth-user2'' ?cfg Map.empty)) =
          (\<lparr>success = True, remaining = 0\<rparr>,
           [''auth-user2'' \<mapsto> \<lparr>count = 1, resetTime = 2000 + \<epsilon>\<rparr>]))"
    using window_created_when_absent_or_expired [of Map.empty "''auth-user2''" 0 ?cfg]
    by (simp (no_asm_use))
  from both [THEN conjunct2, rule_format, of 1] both [THEN conjunct1]
  show ?thesis by (simp (no_asm_use))
qed

text \<open>
  At \<open>now = resetTime\<close> the window is still live. With interval 1000 and quota 1, a call
  at time 0 stores resetTime 1000, and a call at time 1000 is rejected and replaces nothing.
\<close>

theorem reset_at_equality_counterexample:
  "snd (checkRateLimit 0 ''auth-user2'' \<lparr>interval = 1000, uniqueTokenPerInterval = 1\<rparr> Map.empty)
       ''auth-user2'' = Some \<lparr>count = 1, resetTime = 1000\<rparr>
   \<and> checkRateLimit 1000 ''auth-user2'' \<lparr>interval = 1000, uniqueTokenPerInterval = 1\<rparr>
       (snd (checkRateLimit 0 ''auth-user2'' \<lparr>interval = 1000, uniqueTokenPerInterval = 1\<rparr> Map.empty))
     = (\<lparr>success = False, remaining = 0\<rparr>, [''auth-user2'' \<mapsto> \<lparr>count = 1, resetTime = 1000\<rparr>])"
  by (simp add: checkRateLimit_def)

section \<open>A live window keeps its resetTime\<close>

text \<open>
  C10. A call on a live window leaves its resetTime alone: when admitted it stores the same
  window with the count one higher, when rejected it stores nothing. Conversely, when the
  stored resetTime of the identifier differs after the call, the call went through the
  absent-or-expired branch and the stored window is the new one.
\<close>

theorem live_call_keeps_resetTime:
  "(m k = Some w \<and> now \<le> resetTime w \<longrightarrow>
      (\<exists>w'. snd (checkRateLimit now k cfg m) k = Some w' \<and> resetTime w' = resetTime w
         \<and> (if success (fst (checkRateLimit now k cfg m))
              then snd (checkRateLimit now k cfg m) = m(k \<mapsto> w\<lparr>count := count w + 1\<rparr>)
              else snd (checkRateLimit now k cfg m) = m)))
   \<and> (map_option resetTime (snd (checkRateLimit now k cfg m) k) \<noteq> map_option resetTime (m k) \<longrightarrow>
        (m k = None \<or> (\<exists>v. m k = Some v \<and> resetTime v < now))
        \<and> snd (checkRateLimit now k cfg m) k = Some \<lparr>count = 1, resetTime = now + interval cfg\<rparr>)"
proof (intro conjI impI)
  assume live: "m k = Some w \<and> now \<le> resetTime w"
  show "\<exists>w'. snd (checkRateLimit now k cfg m) k = Some w' \<and> resetTime w' = resetTime w
         \<and> (if success (fst (checkRateLimit now k cfg m))
              then snd (checkRateLimit now k cfg m) = m(k \<mapsto> w\<lparr>count := count w + 1\<rparr>)
              else snd (checkRateLimit now k cfg m) = m)"
  proof (cases "uniqueTokenPerInterval cfg \<le> count w")
    case True
    with live have "checkRateLimit now k cfg m = (\<lparr>success = False, remaining = 0\<rparr>, m)"
      by (intro checkRateLimit_exhausted [where w = w]) auto
    with live show ?thesis by simp
  next
    case False
    with live have "checkRateLimit now k cfg m =
           (\<lparr>success = True, remaining = uniqueTokenPerInterval cfg - (count w + 1)\<rparr>,
            m(k \<mapsto> w\<lparr>count := count w + 1\<rparr>))"
      by (intro checkRateLimit_increment) auto
    then show ?thesis by simp
  qed
next
  assume changed: "map_option resetTime (snd (checkRateLimit now k cfg m) k) \<noteq> map_option resetTime (m k)"
  show stale: "m k = None \<or> (\<exists>v. m k = Some v \<and> resetTime v < now)"
  proof (rule ccontr)
    assume "\<not> ?thesis"
    then obtain v where v: "m k = Some v" "now \<le> resetTime v"
      by (cases "m k") auto
    then have "map_option resetTime (snd (checkRateLimit now k cfg m) k) = map_option resetTime (m k)"
      by (simp add: checkRateLimit_def Let_def)
    with changed show False by simp
  qed
  then show "snd (checkRateLimit now k cfg m) k = Some \<lparr>count = 1, resetTime = now + interval cfg\<rparr>"
    by (simp add: checkRateLimit_fresh)
qed

theorem live_call_keeps_resetTime_witness:
  "snd (checkRateLimit 500 ''a'' \<lparr>interval = 70, uniqueTokenPerInterval = 3\<rparr>
          [''a'' \<mapsto> \<lparr>count = 1, resetTime = 1000\<rparr>]) ''a'' = Some \<lparr>count = 2, resetTime = 1000\<rparr>
   \<and> snd (checkRateLimit 500 ''a'' \<lparr>interval = 70, uniqueTokenPerInterval = 1\<rparr>
          [''a'' \<mapsto> \<lparr>count = 1, resetTime = 1000\<rparr>]) = [''a'' \<mapsto> \<lparr>count = 1, resetTime = 1000\<rparr>]
   \<and> snd (checkRateLimit 1001 ''a'' \<lparr>interval = 70, uniqueTokenPerInterval = 3\<rparr>
          [''a'' \<mapsto> \<lparr>count = 1, resetTime = 1000\<rparr>]) ''a'' = Some \<lparr>count = 1, resetTime = 1071\<rparr>"
proof -
  let ?m = "[''a'' \<mapsto> \<lparr>count = 1, resetTime = 1000\<rparr>]"
  have admitted: "success (fst (checkRateLimit 500 ''a'' \<lparr>interval = 70, uniqueTokenPerInterval = 3\<rparr> ?m))"
    by (simp add: checkRateLimit_def)
  have rejected: "\<not> success (fst (checkRateLimit 500 ''a'' \<lparr>interval = 70, uniqueTokenPerInterval = 1\<rparr> ?m))"
    by (simp add: checkRateLimit_def)
  have changed: "map_option resetTime (snd (checkRateLimit 1001 ''a'' \<lparr>interval = 70, uniqueTokenPerInterval = 3\<rparr> ?m) ''a'')
      \<noteq> map_option resetTime (?m ''a'')"
    by (simp add: checkRateLimit_def)
  have 1: "snd (checkRateLimit 500 ''a'' \<lparr>interval = 70, uniqueTokenPerInterval = 3\<rparr> ?m) ''a''
      = Some \<lparr>count = 2, resetTime = 1000\<rparr>"
    using live_call_keeps_resetTime
      [of ?m "''a''" "\<lparr>count = 1, resetTime = 1000\<rparr>" 500 "\<lparr>interval = 70, uniqueTokenPerInterval = 3\<rparr>"]
      admitted by auto
  have 2: "snd (checkRateLimit 500 ''a'' \<lparr>interval = 70, uniqueTokenPerInterval = 1\<rparr> ?m) = ?m"
    using live_call_keeps_resetTime
      [of ?m "''a''" "\<lparr>count = 1, resetTime = 1000\<rparr>" 500 "\<lparr>interval = 70, uniqueTokenPerInterval = 1\<rparr>"]
      rejected by auto
  have 3: "snd (checkRateLimit 1001 ''a'' \<lparr>interval = 70, uniqueTokenPerInterval = 3\<rparr> ?m) ''a''
      = Some \<lparr>count = 1, resetTime = 1071\<rparr>"
    using live_call_keeps_resetTime
      [of ?m "''a''" "\<lparr>count = 1, resetTime = 1000\<rparr>" 1001 "\<lparr>interval = 70, uniqueTokenPerInterval = 3\<rparr>"]
      changed by auto
  from 1 2 3 show ?thesis by blast
qed

section \<open>The quota is a ceiling\<close>

text \<open>
  C1. Let the quota be at least 1 and let a call at time \<open>t0\<close> find the identifier absent
  or expired, so that it opens a window. If the next \<open>quota - 1\<close> calls for the identifier
  fall inside that window (at times up to \<open>t0 + interval\<close>), then these \<open>quota\<close> calls
  are all admitted, with \<open>remaining\<close> running from \<open>quota - 1\<close> down to 0, and the
  next call inside the window returns \<open>success = false\<close>, \<open>remaining = 0\<close>.
\<close>

theorem quota_ceiling:
  assumes q: "1 \<le> uniqueTokenPerInterval cfg"
    and fresh: "m k = None \<or> (\<exists>w. m k = Some w \<and> resetTime w < t0)"
    and len: "int (length ts) = uniqueTokenPerInterval cfg - 1"
    and win: "\<forall>t\<in>set ts. t \<le> t0 + interval cfg"
    and last: "t' \<le> t0 + interval cfg"
  shows "fst (calls k cfg (t0 # ts) m) =
           map (\<lambda>i. \<lparr>success = True, remaining = uniqueTokenPerInterval cfg - 1 - int i\<rparr>)
             [0..<nat (uniqueTokenPerInterval cfg)]
       \<and> fst (checkRateLimit t' k cfg (snd (calls k cfg (t0 # ts) m))) =
           \<lparr>success = False, remaining = 0\<rparr>"
proof -
  let ?q = "uniqueTokenPerInterval cfg"
  let ?w = "\<lparr>count = 1, resetTime = t0 + interval cfg\<rparr>"
  let ?m1 = "m(k \<mapsto> ?w)"
  have first: "checkRateLimit t0 k cfg m = (\<lparr>success = True, remaining = ?q - 1\<rparr>, ?m1)"
    using fresh by (rule checkRateLimit_fresh)
  have rest: "calls k cfg ts ?m1 =
           (map (\<lambda>i. \<lparr>success = True, remaining = ?q - (count ?w + 1 + int i)\<rparr>) [0..<length ts],
            ?m1(k \<mapsto> ?w\<lparr>count := count ?w + int (length ts)\<rparr>))"
    using win len by (intro calls_in_window) auto
  have n: "nat ?q = Suc (length ts)" using len q by linarith
  have results: "fst (calls k cfg (t0 # ts) m) =
           map (\<lambda>i. \<lparr>success = True, remaining = ?q - 1 - int i\<rparr>) [0..<nat ?q]"
    by (simp add: calls_Cons first rest n map_upt_Suc del: upt_Suc) 
  have final: "snd (calls k cfg (t0 # ts) m) = m(k \<mapsto> \<lparr>count = ?q, resetTime = t0 + interval cfg\<rparr>)"
    using len by (simp add: calls_Cons first rest)
  have "checkRateLimit t' k cfg (m(k \<mapsto> \<lparr>count = ?q, resetTime = t0 + interval cfg\<rparr>)) =
          (\<lparr>success = False, remaining = 0\<rparr>, m(k \<mapsto> \<lparr>count = ?q, resetTime = t0 + interval cfg\<rparr>))"
    using last by (intro checkRateLimit_exhausted [where w = "\<lparr>count = ?q, resetTime = t0 + interval cfg\<rparr>"]) auto
  with results final show ?thesis by simp
qed

theorem quota_ceiling_witness:
  "fst (calls ''write-user1'' \<lparr>interval = 60000, uniqueTokenPerInterval = 3\<rparr> [0, 10, 20] Map.empty) =
     [\<lparr>success = True, remaining = 2\<rparr>, \<lparr>success = True, remaining = 1\<rparr>,
      \<lparr>success = True, remaining = 0\<rparr>]
   \<and> fst (checkRateLimit 30 ''write-user1'' \<lparr>interval = 60000, uniqueTokenPerInterval = 3\<rparr>
        (snd (calls ''write-user1'' \<lparr>interval = 60000, uniqueTokenPerInterval = 3\<rparr> [0, 10, 20] Map.empty)))
     = \<lparr>success = False, remaining = 0\<rparr>"
proof -
  have three: "[0..<3::nat] = [0, 1, 2]" by code_simp
  show ?thesis
    using quota_ceiling [of "\<lparr>interval = 60000, uniqueTokenPerInterval = 3\<rparr>" Map.empty
        "''write-user1''" 0 "[10, 20]" 30]
    by (simp (no_asm_use) add: three)
qed

section \<open>A quota of zero or less\<close>

text \<open>
  C4, as the code has it. The branch that creates a window does not look at the quota. For
  a configuration with \<open>uniqueTokenPerInterval \<le> 0\<close> and any map reached from the empty
  one, a call on an absent or expired identifier is admitted with
  \<open>remaining = quota - 1\<close> and stores a window with count 1, and a call on a live window
  returns \<open>success = false\<close>, \<open>remaining = 0\<close> and the same map. There is no other
  outcome, so no call fails.
\<close>

theorem nonpositive_quota:
  assumes quota: "uniqueTokenPerInterval cfg \<le> 0"
    and reach: "m = run evs Map.empty"
  shows "checkRateLimit now k cfg m =
           (if m k = None \<or> (\<exists>w. m k = Some w \<and> resetTime w < now)
            then (\<lparr>success = True, remaining = uniqueTokenPerInterval cfg - 1\<rparr>,
                  m(k \<mapsto> \<lparr>count = 1, resetTime = now + interval cfg\<rparr>))
            else (\<lparr>success = False, remaining = 0\<rparr>, m))"
proof (cases "m k = None \<or> (\<exists>w. m k = Some w \<and> resetTime w < now)")
  case True
  then show ?thesis by (simp add: checkRateLimit_fresh)
next
  case False
  then obtain w where w: "m k = Some w" "\<not> now > resetTime w" by (cases "m k") auto
  have "counts_positive m"
    unfolding reach using counts_positive_empty by (rule counts_positive_run)
  with w have "1 \<le> count w" by (simp add: counts_positive_def)
  with quota have "uniqueTokenPerInterval cfg \<le> count w" by simp
  with w have "checkRateLimit now k cfg m = (\<lparr>success = False, remaining = 0\<rparr>, m)"
    by (intro checkRateLimit_exhausted [where w = w])
  with False show ?thesis by simp
qed

theorem nonpositive_quota_witness:
  "checkRateLimit 5 ''k'' \<lparr>interval = 60000, uniqueTokenPerInterval = 0\<rparr>
      (run [Check 0 ''k'' \<lparr>interval = 60000, uniqueTokenPerInterval = 0\<rparr>] Map.empty)
     = (\<lparr>success = False, remaining = 0\<rparr>,
        run [Check 0 ''k'' \<lparr>interval = 60000, uniqueTokenPerInterval = 0\<rparr>] Map.empty)
   \<and> checkRateLimit 0 ''k'' \<lparr>interval = 60000, uniqueTokenPerInterval = 0\<rparr> (run [] Map.empty)
     = (\<lparr>success = True, remaining = - 1\<rparr>, [''k'' \<mapsto> \<lparr>count = 1, resetTime = 60000\<rparr>])"
proof -
  let ?cfg = "\<lparr>interval = 60000, uniqueTokenPerInterval = 0\<rparr>"
  have m: "run [Check 0 ''k'' ?cfg] Map.empty = [''k'' \<mapsto> \<lparr>count = 1, resetTime = 60000\<rparr>]"
    by (simp add: run_def checkRateLimit_def)
  have e: "run [] Map.empty = (Map.empty :: rate_limit_map)"
    by (simp add: run_def)
  have 1: "checkRateLimit 5 ''k'' ?cfg (run [Check 0 ''k'' ?cfg] Map.empty)
     = (\<lparr>success = False, remaining = 0\<rparr>, run [Check 0 ''k'' ?cfg] Map.empty)"
    using nonpositive_quota [of ?cfg "run [Check 0 ''k'' ?cfg] Map.empty" "[Check 0 ''k'' ?cfg]" 5 "''k''"]
    by (simp add: m)
  have 2: "checkRateLimit 0 ''k'' ?cfg (run [] Map.empty)
     = (\<lparr>success = True, remaining = - 1\<rparr>, [''k'' \<mapsto> \<lparr>count = 1, resetTime = 60000\<rparr>])"
    using nonpositive_quota [of ?cfg "run [] Map.empty" "[]" 0 "''k''"]
    by (simp add: e)
  from 1 2 show ?thesis by blast
qed

text \<open>
  The first call for a new identifier under quota 0 is admitted, with \<open>remaining = -1\<close>.
\<close>

theorem zero_quota_first_call_counterexample:
  "checkRateLimit 0 ''k'' \<lparr>interval = 60000, uniqueTokenPerInterval = 0\<rparr> Map.empty
     = (\<lparr>success = True, remaining = - 1\<rparr>, [''k'' \<mapsto> \<lparr>count = 1, resetTime = 60000\<rparr>])"
  by (simp add: checkRateLimit_def)


section \<open>The remaining count goes down by one\<close>

text \<open>
  C7. Take two successive calls for one identifier under one configuration, with any calls
  for other identifiers in between. If both are admitted and the second falls in the window
  that is live after the first (\<open>t' \<le> resetTime\<close>), the second returns a
  \<open>remaining\<close> exactly one below that of the first; in particular it does not increase.
\<close>

theorem remaining_decreases_by_one:
  assumes others: "\<forall>c\<in>set cs. fst (snd c) \<noteq> k"
    and first: "checkRateLimit t k cfg m = (r, ma)"
    and second: "checkRateLimit t' k cfg (snd (checks cs ma)) = (r', mb)"
    and window: "ma k = Some w" "t' \<le> resetTime w"
    and admitted: "success r" "success r'"
  shows "remaining r' = remaining r - 1 \<and> remaining r' \<le> remaining r"
proof -
  let ?q = "uniqueTokenPerInterval cfg"
  have fst_rem: "remaining r = ?q - count w"
  proof (cases "m k = None \<or> (\<exists>v. m k = Some v \<and> resetTime v < t)")
    case True
    then have "checkRateLimit t k cfg m =
        (\<lparr>success = True, remaining = ?q - 1\<rparr>, m(k \<mapsto> \<lparr>count = 1, resetTime = t + interval cfg\<rparr>))"
      by (simp add: checkRateLimit_fresh)
    with first window(1) show ?thesis by auto
  next
    case False
    then obtain v where v: "m k = Some v" "\<not> t > resetTime v" by (cases "m k") auto
    show ?thesis
    proof (cases "?q \<le> count v")
      case True
      with v have "checkRateLimit t k cfg m = (\<lparr>success = False, remaining = 0\<rparr>, m)"
        by (intro checkRateLimit_exhausted [where w = v])
      with first admitted(1) show ?thesis by auto
    next
      case False
      with v have "checkRateLimit t k cfg m =
          (\<lparr>success = True, remaining = ?q - (count v + 1)\<rparr>, m(k \<mapsto> v\<lparr>count := count v + 1\<rparr>))"
        by (intro checkRateLimit_increment) auto
      with first window(1) show ?thesis by auto
    qed
  qed
  have stored: "snd (checks cs ma) k = Some w"
    using others window(1) by (simp add: checks_other)
  have snd_rem: "remaining r' = ?q - (count w + 1)"
  proof (cases "?q \<le> count w")
    case True
    with stored window(2)
    have "checkRateLimit t' k cfg (snd (checks cs ma)) =
        (\<lparr>success = False, remaining = 0\<rparr>, snd (checks cs ma))"
      by (intro checkRateLimit_exhausted [where w = w]) auto
    with second admitted(2) show ?thesis by auto
  next
    case False
    with stored window(2)
    have "checkRateLimit t' k cfg (snd (checks cs ma)) =
        (\<lparr>success = True, remaining = ?q - (count w + 1)\<rparr>,
         (snd (checks cs ma))(k \<mapsto> w\<lparr>count := count w + 1\<rparr>))"
      by (intro checkRateLimit_increment) auto
    with second show ?thesis by auto
  qed
  from fst_rem snd_rem show ?thesis by simp
qed

theorem remaining_decreases_by_one_witness:
  "remaining (fst (checkRateLimit 20 ''write-user1'' \<lparr>interval = 60000, uniqueTokenPerInterval = 3\<rparr>
      (snd (checks [(10, ''read-user1'', \<lparr>interval = 60000, uniqueTokenPerInterval = 50\<rparr>)]
         (snd (checkRateLimit 0 ''write-user1'' \<lparr>interval = 60000, uniqueTokenPerInterval = 3\<rparr> Map.empty))))))
   = remaining (fst (checkRateLimit 0 ''write-user1'' \<lparr>interval = 60000, uniqueTokenPerInterval = 3\<rparr> Map.empty)) - 1
   \<and> remaining (fst (checkRateLimit 0 ''write-user1'' \<lparr>interval = 60000, uniqueTokenPerInterval = 3\<rparr> Map.empty)) = 2"
proof -
  let ?cfg = "\<lparr>interval = 60000, uniqueTokenPerInterval = 3\<rparr>"
  let ?cs = "[(10, ''read-user1'', \<lparr>interval = 60000, uniqueTokenPerInterval = 50\<rparr>)]"
  let ?c1 = "checkRateLimit 0 ''write-user1'' ?cfg Map.empty"
  let ?c2 = "checkRateLimit 20 ''write-user1'' ?cfg (snd (checks ?cs (snd ?c1)))"
  have c1: "?c1 = (\<lparr>success = True, remaining = 2\<rparr>,
                  [''write-user1'' \<mapsto> \<lparr>count = 1, resetTime = 60000\<rparr>])"
    by (simp add: checkRateLimit_def)
  have c2: "success (fst ?c2)"
    by (simp add: checkRateLimit_def)
  have "remaining (fst ?c2) = remaining (fst ?c1) - 1 \<and> remaining (fst ?c2) \<le> remaining (fst ?c1)"
  proof (rule remaining_decreases_by_one
      [where cs = ?cs and k = "''write-user1''" and m = Map.empty and t = 0 and cfg = ?cfg
         and ma = "snd ?c1" and t' = 20 and mb = "snd ?c2"
         and w = "\<lparr>count = 1, resetTime = 60000\<rparr>"])
    show "\<forall>c\<in>set ?cs. fst (snd c) \<noteq> ''write-user1''" by simp
    show "?c1 = (fst ?c1, snd ?c1)" by simp
    show "?c2 = (fst ?c2, snd ?c2)" by simp
    show "snd ?c1 ''write-user1'' = Some \<lparr>count = 1, resetTime = 60000\<rparr>" by (simp add: c1)
    show "20 \<le> resetTime \<lparr>count = 1, resetTime = 60000\<rparr>" by simp
    show "success (fst ?c1)" by (simp add: c1)
    show "success (fst ?c2)" by (rule c2)
  qed
  then show ?thesis by (simp add: c1)
qed

section \<open>Identifiers do not interfere\<close>

text \<open>
  C6. For distinct identifiers \<open>A\<close> and \<open>B\<close>, any sequence of calls for \<open>A\<close>, each
  with its own time and configuration, leaves the stored entry of \<open>B\<close> (its count and
  resetTime, or its absence) as it was, and a later call for \<open>B\<close> returns the same result
  and stores the same window for \<open>B\<close> as it would have without the calls for \<open>A\<close>.
\<close>

theorem identifier_independence:
  assumes "A \<noteq> B"
  shows "snd (checks (map (\<lambda>(t, cfg). (t, A, cfg)) tcs) m) B = m B
     \<and> fst (checkRateLimit now B cfgB (snd (checks (map (\<lambda>(t, cfg). (t, A, cfg)) tcs) m)))
         = fst (checkRateLimit now B cfgB m)
     \<and> snd (checkRateLimit now B cfgB (snd (checks (map (\<lambda>(t, cfg). (t, A, cfg)) tcs) m))) B
         = snd (checkRateLimit now B cfgB m) B"
proof -
  let ?m' = "snd (checks (map (\<lambda>(t, cfg). (t, A, cfg)) tcs) m)"
  have "\<forall>c\<in>set (map (\<lambda>(t, cfg). (t, A, cfg)) tcs). fst (snd c) \<noteq> B"
    using assms by auto
  then have same: "?m' B = m B" by (rule checks_other)
  from checkRateLimit_local [of ?m' B m now cfgB, OF same] same show ?thesis by simp
qed

theorem identifier_independence_witness:
  "(snd (checks (map (\<lambda>(t, cfg). (t, ''sync-userA'', cfg))
          [(0, \<lparr>interval = 300000, uniqueTokenPerInterval = 1\<rparr>),
           (5, \<lparr>interval = 300000, uniqueTokenPerInterval = 1\<rparr>)]) Map.empty) ''sync-userB'' = None
   \<and> fst (checkRateLimit 7 ''sync-userB'' \<lparr>interval = 300000, uniqueTokenPerInterval = 1\<rparr>
        (snd (checks (map (\<lambda>(t, cfg). (t, ''sync-userA'', cfg))
          [(0, \<lparr>interval = 300000, uniqueTokenPerInterval = 1\<rparr>),
           (5, \<lparr>interval = 300000, uniqueTokenPerInterval = 1\<rparr>)]) Map.empty)))
      = fst (checkRateLimit 7 ''sync-userB'' \<lparr>interval = 300000, uniqueTokenPerInterval = 1\<rparr> Map.empty)
   \<and> snd (checkRateLimit 7 ''sync-userB'' \<lparr>interval = 300000, uniqueTokenPerInterval = 1\<rparr>
        (snd (checks (map (\<lambda>(t, cfg). (t, ''sync-userA'', cfg))
          [(0, \<lparr>interval = 300000, uniqueTokenPerInterval = 1\<rparr>),
           (5, \<lparr>interval = 300000, uniqueTokenPerInterval = 1\<rparr>)]) Map.empty))) ''sync-userB''
      = snd (checkRateLimit 7 ''sync-userB'' \<lparr>interval = 300000, uniqueTokenPerInterval = 1\<rparr> Map.empty)
          ''sync-userB'')
   \<and> checkRateLimit 7 ''sync-userB'' \<lparr>interval = 300000, uniqueTokenPerInterval = 1\<rparr> Map.empty
      = (\<lparr>success = True, remaining = 0\<rparr>, [''sync-userB'' \<mapsto> \<lparr>count = 1, resetTime = 300007\<rparr>])
   \<and> fst (checks (map (\<lambda>(t, cfg). (t, ''sync-userA'', cfg))
          [(0, \<lparr>interval = 300000, uniqueTokenPerInterval = 1\<rparr>),
           (5, \<lparr>interval = 300000, uniqueTokenPerInterval = 1\<rparr>)]) Map.empty)
      = [\<lparr>success = True, remaining = 0\<rparr>, \<lparr>success = False, remaining = 0\<rparr>]"
proof (intro conjI)
  have ne: "''sync-userA'' \<noteq> ''sync-userB''" by simp
  note inst = identifier_independence [OF ne,
      where tcs = "[(0, \<lparr>interval = 300000, uniqueTokenPerInterval = 1\<rparr>),
           (5, \<lparr>interval = 300000, uniqueTokenPerInterval = 1\<rparr>)]"
        and m = Map.empty and now = 7
        and cfgB = "\<lparr>interval = 300000, uniqueTokenPerInterval = 1\<rparr>"]
  show "snd (checks (map (\<lambda>(t, cfg). (t, ''sync-userA'', cfg))
          [(0, \<lparr>interval = 300000, uniqueTokenPerInterval = 1\<rparr>),
           (5, \<lparr>interval = 300000, uniqueTokenPerInterval = 1\<rparr>)]) Map.empty) ''sync-userB'' = None"
    by (rule inst [THEN conjunct1])
  show "fst (checkRateLimit 7 ''sync-userB'' \<lparr>interval = 300000, uniqueTokenPerInterval = 1\<rparr>
        (snd (checks (map (\<lambda>(t, cfg). (t, ''sync-userA'', cfg))
          [(0, \<lparr>interval = 300000, uniqueTokenPerInterval = 1\<rparr>),
           (5, \<lparr>interval = 300000, uniqueTokenPerInterval = 1\<rparr>)]) Map.empty)))
      = fst (checkRateLimit 7 ''sync-userB'' \<lparr>interval = 300000, uniqueTokenPerInterval = 1\<rparr> Map.empty)"
    by (rule inst [THEN conjunct2, THEN conjunct1])
  show "snd (checkRateLimit 7 ''sync-userB'' \<lparr>interval = 300000, uniqueTokenPerInterval = 1\<rparr>
        (snd (checks (map (\<lambda>(t, cfg). (t, ''sync-userA'', cfg))
          [(0, \<lparr>interval = 300000, uniqueTokenPerInterval = 1\<rparr>),
           (5, \<lparr>interval = 300000, uniqueTokenPerInterval = 1\<rparr>)]) Map.empty))) ''sync-userB''
      = snd (checkRateLimit 7 ''sync-userB'' \<lparr>interval = 300000, uniqueTokenPerInterval = 1\<rparr> Map.empty)
          ''sync-userB''"
    by (rule inst [THEN conjunct2, THEN conjunct2])
  show "checkRateLimit 7 ''sync-userB'' \<lparr>interval = 300000, uniqueTokenPerInterval = 1\<rparr> Map.empty
      = (\<lparr>success = True, remaining = 0\<rparr>, [''sync-userB'' \<mapsto> \<lparr>count = 1, resetTime = 300007\<rparr>])"
    by (simp add: checkRateLimit_def)
  show "fst (checks (map (\<lambda>(t, cfg). (t, ''sync-userA'', cfg))
          [(0, \<lparr>interval = 300000, uniqueTokenPerInterval = 1\<rparr>),
           (5, \<lparr>interval = 300000, uniqueTokenPerInterval = 1\<rparr>)]) Map.empty)
      = [\<lparr>success = True, remaining = 0\<rparr>, \<lparr>success = False, remaining = 0\<rparr>]"
    by (simp add: checkRateLimit_def)
qed

section \<open>The sweep is invisible to later calls\<close>

text \<open>
  C5. A sweep at clock value \<open>T\<close> removes exactly the entries with
  \<open>resetTime < T\<close> and keeps every other entry as it is. For any map and any sequence of
  later calls (each reading a clock value not before \<open>T\<close>), the results of the calls are
  the same whether the sweep ran or not. A call on a swept identifier behaves as on an
  identifier never seen (admitted, \<open>remaining = quota - 1\<close>, new window with count 1),
  and a surviving identifier keeps its stored window, hence its count.
\<close>

theorem sweep_transparent:
  assumes "\<forall>c\<in>set cs. T \<le> fst c"
  shows "fst (checks cs (cleanup T m)) = fst (checks cs m)
     \<and> (\<forall>k. cleanup T m k = (if \<exists>w. m k = Some w \<and> resetTime w < T then None else m k))
     \<and> (\<forall>k w t cfg. m k = Some w \<and> resetTime w < T \<longrightarrow>
           checkRateLimit t k cfg (cleanup T m) =
             (\<lparr>success = True, remaining = uniqueTokenPerInterval cfg - 1\<rparr>,
              (cleanup T m)(k \<mapsto> \<lparr>count = 1, resetTime = t + interval cfg\<rparr>)))
     \<and> (\<forall>k w. m k = Some w \<and> T \<le> resetTime w \<longrightarrow> cleanup T m k = Some w)"
proof (intro conjI allI impI)
  show "fst (checks cs (cleanup T m)) = fst (checks cs m)"
    using checks_same_up_to_expired [OF cleanup_same_up_to_expired assms] by simp
next
  fix k
  show "cleanup T m k = (if \<exists>w. m k = Some w \<and> resetTime w < T then None else m k)"
    by (rule cleanup_apply)
next
  fix k w t cfg
  assume "m k = Some w \<and> resetTime w < T"
  then have "cleanup T m k = None" by (simp add: cleanup_apply)
  then show "checkRateLimit t k cfg (cleanup T m) =
             (\<lparr>success = True, remaining = uniqueTokenPerInterval cfg - 1\<rparr>,
              (cleanup T m)(k \<mapsto> \<lparr>count = 1, resetTime = t + interval cfg\<rparr>))"
    by (simp add: checkRateLimit_fresh)
next
  fix k w
  assume "m k = Some w \<and> T \<le> resetTime w"
  then show "cleanup T m k = Some w" by (simp add: cleanup_apply)
qed

theorem sweep_transparent_witness:
  "fst (checks [(600, ''a'', \<lparr>interval = 60000, uniqueTokenPerInterval = 3\<rparr>),
                (700, ''b'', \<lparr>interval = 60000, uniqueTokenPerInterval = 3\<rparr>)]
         (cleanup 500 [''a'' \<mapsto> \<lparr>count = 3, resetTime = 100\<rparr>, ''b'' \<mapsto> \<lparr>count = 2, resetTime = 1000\<rparr>]))
   = fst (checks [(600, ''a'', \<lparr>interval = 60000, uniqueTokenPerInterval = 3\<rparr>),
                  (700, ''b'', \<lparr>interval = 60000, uniqueTokenPerInterval = 3\<rparr>)]
         [''a'' \<mapsto> \<lparr>count = 3, resetTime = 100\<rparr>, ''b'' \<mapsto> \<lparr>count = 2, resetTime = 1000\<rparr>])
   \<and> fst (checks [(600, ''a'', \<lparr>interval = 60000, uniqueTokenPerInterval = 3\<rparr>),
                  (700, ''b'', \<lparr>interval = 60000, uniqueTokenPerInterval = 3\<rparr>)]
         [''a'' \<mapsto> \<lparr>count = 3, resetTime = 100\<rparr>, ''b'' \<mapsto> \<lparr>count = 2, resetTime = 1000\<rparr>])
     = [\<lparr>success = True, remaining = 2\<rparr>, \<lparr>success = True, remaining = 0\<rparr>]
   \<and> cleanup 500 [''a'' \<mapsto> \<lparr>count = 3, resetTime = 100\<rparr>, ''b'' \<mapsto> \<lparr>count = 2, resetTime = 1000\<rparr>] ''a''
     = None
   \<and> cleanup 500 [''a'' \<mapsto> \<lparr>count = 3, resetTime = 100\<rparr>, ''b'' \<mapsto> \<lparr>count = 2, resetTime = 1000\<rparr>] ''b''
     = Some \<lparr>count = 2, resetTime = 1000\<rparr>"
proof (intro conjI)
  let ?cs = "[(600, ''a'', \<lparr>interval = 60000, uniqueTokenPerInterval = 3\<rparr>),
              (700, ''b'', \<lparr>interval = 60000, uniqueTokenPerInterval = 3\<rparr>)]"
  let ?m = "[''a'' \<mapsto> \<lparr>count = 3, resetTime = 100\<rparr>, ''b'' \<mapsto> \<lparr>count = 2, resetTime = 1000\<rparr>]"
  have later: "\<forall>c\<in>set ?cs. (500::int) \<le> fst c" by simp
  note inst = sweep_transparent [OF later, of ?m]
  show "fst (checks ?cs (cleanup 500 ?m)) = fst (checks ?cs ?m)"
    by (rule inst [THEN conjunct1])
  show "fst (checks ?cs ?m) = [\<lparr>success = True, remaining = 2\<rparr>, \<lparr>success = True, remaining = 0\<rparr>]"
    by (simp add: checkRateLimit_def)
  show "cleanup 500 ?m ''a'' = None"
    by (simp add: cleanup_def)
  show "cleanup 500 ?m ''b'' = Some \<lparr>count = 2, resetTime = 1000\<rparr>"
    by (simp add: cleanup_def)
qed

section \<open>The default configuration\<close>

text \<open>
  C8, as the code has it. A call without a configuration uses interval 60000 and quota 10:
  absent or expired identifiers are admitted with \<open>remaining = 9\<close> and a window ending
  at \<open>now + 60000\<close>, a live window with count 10 or more is rejected, and a live window
  with a lower count is incremented. The interval is that of the \<open>DEFAULT\<close> entry of
  \<open>RATE_LIMITS\<close>; the quota is 10, where that entry has 30 requests.
\<close>

theorem default_config_behaviour:
  "checkRateLimit_default now k m =
     (case m k of
        None \<Rightarrow> (\<lparr>success = True, remaining = 9\<rparr>, m(k \<mapsto> \<lparr>count = 1, resetTime = now + 60000\<rparr>))
      | Some w \<Rightarrow>
          if resetTime w < now
            then (\<lparr>success = True, remaining = 9\<rparr>, m(k \<mapsto> \<lparr>count = 1, resetTime = now + 60000\<rparr>))
          else if 10 \<le> count w then (\<lparr>success = False, remaining = 0\<rparr>, m)
          else (\<lparr>success = True, remaining = 9 - count w\<rparr>, m(k \<mapsto> w\<lparr>count := count w + 1\<rparr>)))
   \<and> interval default_config = tier_interval RATE_LIMITS_DEFAULT
   \<and> uniqueTokenPerInterval default_config = 10
   \<and> requests RATE_LIMITS_DEFAULT = 30"
  by (simp add: checkRateLimit_default_def checkRateLimit_def default_config_def
      RATE_LIMITS_DEFAULT_def Let_def split: option.splits)

text \<open>
  The first call for a new identifier returns \<open>remaining = 9\<close> under the default
  configuration and would return \<open>remaining = 29\<close> under the \<open>DEFAULT\<close> entry of the
  table.
\<close>

theorem default_quota_counterexample:
  "fst (checkRateLimit_default 0 ''unregistered-op-key'' Map.empty) = \<lparr>success = True, remaining = 9\<rparr>
   \<and> fst (checkRateLimit 0 ''unregistered-op-key''
        \<lparr>interval = tier_interval RATE_LIMITS_DEFAULT,
         uniqueTokenPerInterval = requests RATE_LIMITS_DEFAULT\<rparr> Map.empty)
     = \<lparr>success = True, remaining = 29\<rparr>"
  by (simp add: checkRateLimit_default_def checkRateLimit_def default_config_def RATE_LIMITS_DEFAULT_def)

end
